theory Spec2Isabelle
  imports Main
begin

section \<open>Cells, series and frames\<close>

text \<open>
  The program of \<^verbatim>\<open>manual_transform.py\<close> works on a pandas data frame read from a
  spreadsheet. A cell is null (NaN, None, NaT), a text, an integer, or a value of another
  type (a float, a timestamp, a boolean). A value of another type is kept as the text that
  Python's \<^verbatim>\<open>str\<close> gives for it, which is all that \<^verbatim>\<open>astype(str)\<close> reads of it.
  One \<^typ>\<open>char\<close> stands for one character of a Python string.
\<close>

datatype cell = Null | Text string | IntNum int | Other string

type_synonym series = "cell list"

text \<open>
  A frame is column oriented, as pandas has it: the columns in their order, each with its
  name and its cells.
\<close>

type_synonym frame = "(string \<times> series) list"

datatype error = KeyError string

definition columns :: "frame \<Rightarrow> string list" where
  "columns df = map fst df"

definition row_counts :: "frame \<Rightarrow> nat list" where
  "row_counts df = map (\<lambda>(name, s). length s) df"

text \<open>\<^verbatim>\<open>df[col]\<close>: the column, or KeyError when the frame has no such column.\<close>

definition getitem :: "frame \<Rightarrow> string \<Rightarrow> error + series" where
  "getitem df col = (case map_of df col of None \<Rightarrow> Inl (KeyError col) | Some s \<Rightarrow> Inr s)"

text \<open>
  \<^verbatim>\<open>df[col] = values\<close>: an existing column is replaced where it stands, a new name is
  appended as a new column. The assignment never raises.
\<close>

definition setitem :: "frame \<Rightarrow> string \<Rightarrow> series \<Rightarrow> frame" where
  "setitem df col vals =
     (if col \<in> set (columns df)
      then map (\<lambda>(name, s). if name = col then (name, vals) else (name, s)) df
      else df @ [(col, vals)])"

definition notna :: "cell \<Rightarrow> bool" where
  "notna c = (c \<noteq> Null)"

text \<open>\<^verbatim>\<open>s[mask]\<close>: the cells of the rows where the mask holds, in their order.\<close>

fun select_rows :: "bool list \<Rightarrow> series \<Rightarrow> series" where
  "select_rows (m # ms) (c # cs) = (if m then c # select_rows ms cs else select_rows ms cs)"
| "select_rows _ _ = []"

text \<open>
  The assignment \<^verbatim>\<open>s[mask] = vals\<close>, where \<open>vals\<close> carries the index of the masked rows:
  the values go back to the masked rows in their order, every other row keeps its cell.
\<close>

fun assign_rows :: "bool list \<Rightarrow> series \<Rightarrow> series \<Rightarrow> series" where
  "assign_rows (m # ms) (c # cs) vals =
     (if m then (case vals of [] \<Rightarrow> c # assign_rows ms cs [] | v # vs \<Rightarrow> v # assign_rows ms cs vs)
      else c # assign_rows ms cs vals)"
| "assign_rows _ cs _ = cs"

text \<open>\<^verbatim>\<open>df.loc[mask, col]\<close> read, and \<^verbatim>\<open>df.loc[mask, col] = vals\<close>.\<close>

definition loc_get :: "frame \<Rightarrow> bool list \<Rightarrow> string \<Rightarrow> error + series" where
  "loc_get df msk col =
     (case getitem df col of Inl e \<Rightarrow> Inl e | Inr s \<Rightarrow> Inr (select_rows msk s))"

definition loc_set :: "frame \<Rightarrow> bool list \<Rightarrow> string \<Rightarrow> series \<Rightarrow> frame" where
  "loc_set df msk col vals =
     (case getitem df col of
        Inl e \<Rightarrow> setitem df col (assign_rows msk (map (\<lambda>m. Null) msk) vals)
      | Inr s \<Rightarrow> setitem df col (assign_rows msk s vals))"

definition bind_result :: "error + 'a \<Rightarrow> ('a \<Rightarrow> error + 'b) \<Rightarrow> error + 'b" where
  "bind_result r f = (case r of Inl e \<Rightarrow> Inl e | Inr x \<Rightarrow> f x)"

section \<open>Coercion to text\<close>

definition digit_char :: "nat \<Rightarrow> char" where
  "digit_char d = char_of (48 + d)"

fun str_nat :: "nat \<Rightarrow> string" where
  "str_nat n = (if n < 10 then [digit_char n] else str_nat (n div 10) @ [digit_char (n mod 10)])"

declare str_nat.simps [simp del]

text \<open>Python's \<^verbatim>\<open>str\<close> of an integer.\<close>

definition str_int :: "int \<Rightarrow> string" where
  "str_int i = (if i < 0 then CHR ''-'' # str_nat (nat (- i)) else str_nat (nat i))"

text \<open>
  \<^verbatim>\<open>astype(str)\<close> at one cell. The program coerces masked, non-null cells only; a null
  float would give the text nan.
\<close>

fun astype_str :: "cell \<Rightarrow> string" where
  "astype_str Null = ''nan''"
| "astype_str (Text s) = s"
| "astype_str (IntNum i) = str_int i"
| "astype_str (Other s) = s"

section \<open>The cleanup pass\<close>

definition dquote :: char where
  "dquote = CHR 0x22"

definition squote :: char where
  "squote = CHR 0x27"

fun starts_with :: "string \<Rightarrow> string \<Rightarrow> bool" where
  "starts_with s [] = True"
| "starts_with [] (p # ps) = False"
| "starts_with (c # cs) (p # ps) = (c = p \<and> starts_with cs ps)"

text \<open>
  Python's \<^verbatim>\<open>s.replace(old, new)\<close> for a non-empty \<open>old\<close>: the text is read from the left,
  an occurrence of \<open>old\<close> is replaced and reading goes on behind it.
\<close>

fun str_replace_ne :: "string \<Rightarrow> string \<Rightarrow> string \<Rightarrow> string" where
  "str_replace_ne old new [] = []"
| "str_replace_ne old new (c # cs) =
     (if starts_with (c # cs) old
      then new @ str_replace_ne old new (drop (length old - 1) cs)
      else c # str_replace_ne old new cs)"

text \<open>With an empty \<open>old\<close> Python puts \<open>new\<close> before every character and at the end.\<close>

definition str_replace :: "string \<Rightarrow> string \<Rightarrow> string \<Rightarrow> string" where
  "str_replace old new s =
     (if old = [] then concat (map (\<lambda>c. new @ [c]) s) @ new else str_replace_ne old new s)"

text \<open>
  \<^verbatim>\<open>find_and_replace_quotes\<close>. The argument is the content of the intermediate file, or
  \<open>None\<close> when that file does not exist; the result is the content written to the final
  file, or \<open>None\<close> when nothing is written. The substitution is
  \<^verbatim>\<open>content.replace('"""', '"')\<close>.
\<close>

definition find_and_replace_quotes :: "string option \<Rightarrow> string option" where
  "find_and_replace_quotes input_file =
     (case input_file of
        None \<Rightarrow> None
      | Some content \<Rightarrow> Some (str_replace [dquote, dquote, dquote] [dquote] content))"

section \<open>The column transforms\<close>

text \<open>The two wrappers: \<^verbatim>\<open>lambda x: f'"{x}"'\<close> and \<^verbatim>\<open>lambda x: f'"\'{x}\'"'\<close>.\<close>

definition quote_wrap :: "string \<Rightarrow> string" where
  "quote_wrap x = [dquote] @ x @ [dquote]"

definition custom_wrap :: "string \<Rightarrow> string" where
  "custom_wrap x = [dquote, squote] @ x @ [squote, dquote]"

text \<open>\<^verbatim>\<open>.str.split('.').str[0]\<close>: the text before the first dot.\<close>

definition split_dot_first :: "string \<Rightarrow> string" where
  "split_dot_first x = takeWhile (\<lambda>c. c \<noteq> CHR ''.'') x"

text \<open>
  \<^verbatim>\<open>.str.zfill(width)\<close> is Python's \<^verbatim>\<open>str.zfill\<close> at every text: a text of at least
  \<open>width\<close> characters is returned as it is; otherwise zeros are added to reach \<open>width\<close>,
  behind a leading sign \<^verbatim>\<open>+\<close> or \<^verbatim>\<open>-\<close> when the text has one, in front of the text when
  it has none.
\<close>

definition zfill :: "nat \<Rightarrow> string \<Rightarrow> string" where
  "zfill width x =
     (if width \<le> length x then x
      else (case x of
              [] \<Rightarrow> replicate width CHR ''0''
            | c # cs \<Rightarrow>
                if c = CHR ''+'' \<or> c = CHR ''-''
                then c # replicate (width - length x) CHR ''0'' @ cs
                else replicate (width - length x) CHR ''0'' @ x))"

text \<open>\<^verbatim>\<open>.str.replace(',', '')\<close>.\<close>

definition remove_commas :: "string \<Rightarrow> string" where
  "remove_commas x = str_replace '','' [] x"

text \<open>
  A calendar date, and \<^verbatim>\<open>strftime('%Y-%m-%d')\<close>: the year on four digits at least, month
  and day on two.
\<close>

record date =
  year :: nat
  month :: nat
  day :: nat

definition pad_num :: "nat \<Rightarrow> nat \<Rightarrow> string" where
  "pad_num width n = replicate (width - length (str_nat n)) CHR ''0'' @ str_nat n"

definition strftime :: "date \<Rightarrow> string" where
  "strftime d = pad_num 4 (year d) @ ''-'' @ pad_num 2 (month d) @ ''-'' @ pad_num 2 (day d)"

text \<open>
  \<^verbatim>\<open>pd.to_datetime(s, errors='coerce')\<close>. The parser is the library's and is a parameter
  here: it is given the whole column (pandas may read the format off the column) and the
  cell, and returns the date, or \<open>None\<close> when the cell does not parse. With
  \<^verbatim>\<open>errors='coerce'\<close> a cell that does not parse gives NaT, and so does a null cell.
\<close>

type_synonym parser = "series \<Rightarrow> cell \<Rightarrow> date option"

definition to_datetime :: "parser \<Rightarrow> series \<Rightarrow> date option list" where
  "to_datetime parse s = map (\<lambda>c. case c of Null \<Rightarrow> None | _ \<Rightarrow> parse s c) s"

text \<open>\<^verbatim>\<open>.dt.strftime('%Y-%m-%d')\<close>: NaT gives a null cell.\<close>

definition dt_strftime :: "date option list \<Rightarrow> series" where
  "dt_strftime ds = map (\<lambda>d. case d of None \<Rightarrow> Null | Some x \<Rightarrow> Text (strftime x)) ds"

text \<open>
  The body that the program repeats for a text transform \<open>f\<close> of a column:
  \<^verbatim>\<open>if col in df.columns: mask = df[col].notna();
  df.loc[mask, col] = df.loc[mask, col].astype(str)...\<close>
\<close>

definition masked_transform :: "(string \<Rightarrow> string) \<Rightarrow> string \<Rightarrow> frame \<Rightarrow> error + frame" where
  "masked_transform f col df =
     (if col \<in> set (columns df)
      then bind_result (getitem df col) (\<lambda>s.
             let msk = map notna s in
             bind_result (loc_get df msk col) (\<lambda>sel.
               Inr (loc_set df msk col (map (\<lambda>c. Text (f (astype_str c))) sel))))
      else Inr df)"

definition quote_column :: "string \<Rightarrow> frame \<Rightarrow> error + frame" where
  "quote_column col df = masked_transform quote_wrap col df"

definition custom_quote_column :: "string \<Rightarrow> frame \<Rightarrow> error + frame" where
  "custom_quote_column col df = masked_transform custom_wrap col df"

definition zero_pad_column :: "string \<Rightarrow> nat \<Rightarrow> frame \<Rightarrow> error + frame" where
  "zero_pad_column col len df = masked_transform (\<lambda>x. zfill len (split_dot_first x)) col df"

definition remove_comma_column :: "string \<Rightarrow> frame \<Rightarrow> error + frame" where
  "remove_comma_column col df = masked_transform remove_commas col df"

text \<open>
  \<^verbatim>\<open>if col in df.columns:
  df[col] = pd.to_datetime(df[col], errors='coerce').dt.strftime('%Y-%m-%d')\<close>
\<close>

definition date_column :: "parser \<Rightarrow> string \<Rightarrow> frame \<Rightarrow> error + frame" where
  "date_column parse col df =
     (if col \<in> set (columns df)
      then bind_result (getitem df col) (\<lambda>s.
             Inr (setitem df col (dt_strftime (to_datetime parse s))))
      else Inr df)"

text \<open>A \<^verbatim>\<open>for\<close> loop over columns; an exception ends it.\<close>

fun for_each :: "('a \<Rightarrow> frame \<Rightarrow> error + frame) \<Rightarrow> 'a list \<Rightarrow> frame \<Rightarrow> error + frame" where
  "for_each body [] df = Inr df"
| "for_each body (x # xs) df = bind_result (body x df) (for_each body xs)"

section \<open>The two rule sets\<close>

definition apply_enrollment_transforms :: "parser \<Rightarrow> frame \<Rightarrow> error + frame" where
  "apply_enrollment_transforms parse df =
     bind_result (for_each quote_column
        [''CUSTOMER_NAME'', ''CUSTOMER_SERVICE_ADDRESS'', ''CUSTOMER_SERVICE_CITY_STATE_ZIP'',
         ''TX_TAR_SHORT_DESC'', ''TX_TAR_SCH_DESC''] df) (\<lambda>df.
     bind_result (custom_quote_column ''TX_SERV_SUPP'' df) (\<lambda>df.
     bind_result (for_each (date_column parse)
        [''DT_EFF'', ''CUST_ENR_START_DATE'', ''CUST_EDI_DROP_DATE'', ''LAST_UPDATE''] df) (\<lambda>df.
     bind_result (for_each (\<lambda>(col, len). zero_pad_column col len)
        [(''CITY_GATE'', 4), (''KY_MTR_BILL_GRP'', 2), (''CD_SERV_SUPP'', 4)] df) (\<lambda>df.
     for_each remove_comma_column
        [''TOT_ANNUAL_USAGE'', ''CUST_PEAK_DAY'', ''CUST_BASE_LOAD'', ''CUST_THERMAL_RESPONSE'']
        df))))"

definition apply_usage_transforms :: "parser \<Rightarrow> frame \<Rightarrow> error + frame" where
  "apply_usage_transforms parse df =
     bind_result (for_each quote_column
        [''CUST_NAME'', ''CUST_SERV_ADDR'', ''CUST_SERV_CITY_ST_ZIP'', ''CUST_POOL_ID''] df) (\<lambda>df.
     bind_result (for_each (date_column parse)
        [''DT_LST_BLLD'', ''DT_RDG_FROM'', ''DT_RDG_TO'', ''DT_ENTERED''] df) (\<lambda>df.
     bind_result (zero_pad_column ''KY_MTR_BILL_GRP'' 2 df) (\<lambda>df.
     bind_result (zero_pad_column ''CITY_GATE'' 4 df) (\<lambda>df.
     bind_result (zero_pad_column ''CD_BILL_PRCS_INSTR'' 4 df) (\<lambda>df.
     bind_result (zero_pad_column ''CD_SERV_SUPP'' 4 df) (\<lambda>df.
     for_each remove_comma_column [''USAGE'', ''QY_BTU_FACTOR''] df))))))"

section \<open>Dispatch on the file name\<close>




text \<open>\<^verbatim>\<open>sub in s\<close> on strings.\<close>

fun contains :: "string \<Rightarrow> string \<Rightarrow> bool" where
  "contains [] sub = (sub = [])"
| "contains (c # cs) sub = (starts_with (c # cs) sub \<or> contains cs sub)"




section \<open>The rule sets as lists of rules\<close>

text \<open>
  The five kinds of transform that the two functions apply, each with its column. The lists
  below give the rules of each function in the order in which the function runs them;
  \<open>apply_enrollment_transforms_rules\<close> and \<open>apply_usage_transforms_rules\<close> show that each
  function is the run of its list.
\<close>

datatype rule = QuoteWrap | CustomWrap | DateFormat | ZeroPad nat | StripSeparator

fun apply_rule :: "parser \<Rightarrow> rule \<times> string \<Rightarrow> frame \<Rightarrow> error + frame" where
  "apply_rule parse (QuoteWrap, col) df = quote_column col df"
| "apply_rule parse (CustomWrap, col) df = custom_quote_column col df"
| "apply_rule parse (DateFormat, col) df = date_column parse col df"
| "apply_rule parse (ZeroPad len, col) df = zero_pad_column col len df"
| "apply_rule parse (StripSeparator, col) df = remove_comma_column col df"

definition enrollment_rules :: "(rule \<times> string) list" where
  "enrollment_rules =
     [(QuoteWrap, ''CUSTOMER_NAME''), (QuoteWrap, ''CUSTOMER_SERVICE_ADDRESS''),
      (QuoteWrap, ''CUSTOMER_SERVICE_CITY_STATE_ZIP''), (QuoteWrap, ''TX_TAR_SHORT_DESC''),
      (QuoteWrap, ''TX_TAR_SCH_DESC''),
      (CustomWrap, ''TX_SERV_SUPP''),
      (DateFormat, ''DT_EFF''), (DateFormat, ''CUST_ENR_START_DATE''),
      (DateFormat, ''CUST_EDI_DROP_DATE''), (DateFormat, ''LAST_UPDATE''),
      (ZeroPad 4, ''CITY_GATE''), (ZeroPad 2, ''KY_MTR_BILL_GRP''), (ZeroPad 4, ''CD_SERV_SUPP''),
      (StripSeparator, ''TOT_ANNUAL_USAGE''), (StripSeparator, ''CUST_PEAK_DAY''),
      (StripSeparator, ''CUST_BASE_LOAD''), (StripSeparator, ''CUST_THERMAL_RESPONSE'')]"

definition usage_rules :: "(rule \<times> string) list" where
  "usage_rules =
     [(QuoteWrap, ''CUST_NAME''), (QuoteWrap, ''CUST_SERV_ADDR''),
      (QuoteWrap, ''CUST_SERV_CITY_ST_ZIP''), (QuoteWrap, ''CUST_POOL_ID''),
      (DateFormat, ''DT_LST_BLLD''), (DateFormat, ''DT_RDG_FROM''),
      (DateFormat, ''DT_RDG_TO''), (DateFormat, ''DT_ENTERED''),
      (ZeroPad 2, ''KY_MTR_BILL_GRP''), (ZeroPad 4, ''CITY_GATE''),
      (ZeroPad 4, ''CD_BILL_PRCS_INSTR''), (ZeroPad 4, ''CD_SERV_SUPP''),
      (StripSeparator, ''USAGE''), (StripSeparator, ''QY_BTU_FACTOR'')]"

section \<open>Notions used in the statements\<close>

text \<open>A text that begins with a sign.\<close>

definition has_sign :: "string \<Rightarrow> bool" where
  "has_sign t = (case t of [] \<Rightarrow> False | c # cs \<Rightarrow> c = CHR ''+'' \<or> c = CHR ''-'')"

text \<open>
  A parser for the examples: it knows the two texts of the examples and nothing else.
  It stands for the library's parser where a statement is evaluated on a concrete frame.
\<close>

definition sample_parse :: parser where
  "sample_parse s c =
     (if c = Text ''2023-01-15'' then Some \<lparr>year = 2023, month = 1, day = 15\<rparr>
      else if c = Text ''2024-3-5'' then Some \<lparr>year = 2024, month = 3, day = 5\<rparr>
      else None)"

section \<open>Frames: reading and writing a column\<close>

lemma assign_select:
  "assign_rows (map p s) s (map f (select_rows (map p s) s)) =
   map (\<lambda>c. if p c then f c else c) s"
  by (induction s) auto

lemma in_columns_iff: "col \<in> set (columns df) \<longleftrightarrow> map_of df col \<noteq> None"
  by (simp add: columns_def map_of_eq_None_iff)

lemma columns_setitem:
  "col \<in> set (columns df) \<Longrightarrow> columns (setitem df col vals) = columns df"
  by (simp add: setitem_def columns_def case_prod_beta comp_def if_distrib [of fst] cong: if_cong)

lemma map_of_setitem_same:
  "col \<in> set (columns df) \<Longrightarrow> map_of (setitem df col vals) col = Some vals"
proof -
  have "col \<in> fst ` set xs \<Longrightarrow>
    map_of (map (\<lambda>(name, s). if name = col then (name, vals) else (name, s)) xs) col = Some vals"
    for xs
    by (induction xs) auto
  then show "col \<in> set (columns df) \<Longrightarrow> map_of (setitem df col vals) col = Some vals"
    by (simp add: setitem_def columns_def)
qed

lemma map_of_setitem_other:
  assumes "c \<noteq> col"
  shows "map_of (setitem df col vals) c = map_of df c"
proof -
  have "map_of (map (\<lambda>(name, s). if name = col then (name, vals) else (name, s)) xs) c =
        map_of xs c" for xs
    using assms by (induction xs) auto
  then show ?thesis
    using assms by (simp add: setitem_def map_add_def split: option.split)
qed

lemma row_counts_setitem:
  assumes "distinct (columns df)" and "map_of df col = Some s" and "length vals = length s"
  shows "row_counts (setitem df col vals) = row_counts df"
proof -
  have present: "col \<in> set (columns df)" using assms(2) by (simp add: in_columns_iff)
  have same: "length t = length vals" if "(col, t) \<in> set df" for t
  proof -
    have "map_of df col = Some t"
      using that assms(1) by (simp add: columns_def)
    then show ?thesis using assms(2,3) by simp
  qed
  have "map (\<lambda>(name, t). length t)
          (map (\<lambda>(name, t). if name = col then (name, vals) else (name, t)) df)
        = map (\<lambda>(name, t). length t) df"
    using same by (induction df) auto
  then show ?thesis
    using present by (simp add: setitem_def row_counts_def)
qed

section \<open>What one transform does to a frame\<close>

lemma masked_transform_absent:
  "col \<notin> set (columns df) \<Longrightarrow> masked_transform f col df = Inr df"
  by (simp add: masked_transform_def)

lemma masked_transform_present:
  assumes "map_of df col = Some s"
  shows "masked_transform f col df =
    Inr (setitem df col (map (\<lambda>c. if notna c then Text (f (astype_str c)) else c) s))"
proof -
  have "col \<in> set (columns df)" using assms by (simp add: in_columns_iff)
  then show ?thesis
    using assms
    by (simp add: masked_transform_def bind_result_def getitem_def loc_get_def loc_set_def
        assign_select [of notna s "\<lambda>c. Text (f (astype_str c))"] Let_def)
qed

lemma date_column_absent:
  "col \<notin> set (columns df) \<Longrightarrow> date_column parse col df = Inr df"
  by (simp add: date_column_def)

lemma date_column_present:
  assumes "map_of df col = Some s"
  shows "date_column parse col df = Inr (setitem df col (dt_strftime (to_datetime parse s)))"
proof -
  have "col \<in> set (columns df)" using assms by (simp add: in_columns_iff)
  then show ?thesis
    using assms by (simp add: date_column_def bind_result_def getitem_def)
qed

section \<open>The rule sets are runs of their rules\<close>

lemma apply_enrollment_transforms_rules:
  "apply_enrollment_transforms parse df = for_each (apply_rule parse) enrollment_rules df"
  by (simp add: apply_enrollment_transforms_def enrollment_rules_def bind_result_def
      split: sum.splits)

lemma apply_usage_transforms_rules:
  "apply_usage_transforms parse df = for_each (apply_rule parse) usage_rules df"
  by (simp add: apply_usage_transforms_def usage_rules_def bind_result_def
      split: sum.splits)

lemma apply_rule_absent:
  "col \<notin> set (columns df) \<Longrightarrow> apply_rule parse (r, col) df = Inr df"
  by (cases r)
     (simp_all add: quote_column_def custom_quote_column_def zero_pad_column_def
        remove_comma_column_def masked_transform_absent date_column_absent)

text \<open>
  A rule whose column is present writes a new series of the same length to that column,
  and the new series is null wherever the old one was.
\<close>

lemma apply_rule_present:
  assumes "map_of df col = Some s"
  shows "\<exists>s'. apply_rule parse (r, col) df = Inr (setitem df col s') \<and> length s' = length s \<and>
          (\<forall>i < length s. s ! i = Null \<longrightarrow> s' ! i = Null)"
proof (cases r)
  case DateFormat
  have "length (dt_strftime (to_datetime parse s)) = length s"
    by (simp add: dt_strftime_def to_datetime_def)
  moreover have "\<forall>i < length s. s ! i = Null \<longrightarrow> dt_strftime (to_datetime parse s) ! i = Null"
    by (simp add: dt_strftime_def to_datetime_def)
  ultimately show ?thesis
    using DateFormat date_column_present [OF assms] by auto
qed (use masked_transform_present [OF assms] in
      \<open>auto simp: quote_column_def custom_quote_column_def zero_pad_column_def
        remove_comma_column_def notna_def\<close>)

lemma for_each_shape:
  assumes "distinct (columns df)"
  shows "\<exists>df'. for_each (apply_rule parse) rules df = Inr df' \<and> columns df' = columns df \<and>
           row_counts df' = row_counts df"
  using assms
proof (induction rules arbitrary: df)
  case Nil
  then show ?case by simp
next
  case (Cons x rules)
  obtain r col where x: "x = (r, col)" by (cases x)
  have "\<exists>d. apply_rule parse (r, col) df = Inr d \<and> columns d = columns df \<and>
          row_counts d = row_counts df"
  proof (cases "map_of df col")
    case None
    then have "col \<notin> set (columns df)" by (simp add: in_columns_iff)
    then show ?thesis by (simp add: apply_rule_absent)
  next
    case (Some s)
    then obtain s' where s': "apply_rule parse (r, col) df = Inr (setitem df col s')"
        "length s' = length s"
      using apply_rule_present [OF Some] by blast
    have "col \<in> set (columns df)" using Some by (simp add: in_columns_iff)
    then have "columns (setitem df col s') = columns df"
      by (rule columns_setitem)
    moreover have "row_counts (setitem df col s') = row_counts df"
      using Cons.prems Some s'(2) by (rule row_counts_setitem)
    ultimately show ?thesis using s'(1) by simp
  qed
  then obtain d where d: "apply_rule parse (r, col) df = Inr d" "columns d = columns df"
      "row_counts d = row_counts df" by blast
  have "distinct (columns d)" using d(2) Cons.prems by simp
  from Cons.IH [OF this] obtain df' where
    "for_each (apply_rule parse) rules d = Inr df'" "columns df' = columns d"
    "row_counts df' = row_counts d" by blast
  then show ?case using d x by (simp add: bind_result_def)
qed

section \<open>Missing columns and null cells\<close>

text \<open>
  Claim C1. For every rule of the Enrollment or of the Usage rule set and every frame that
  has no column of the rule's name, applying the rule returns the frame as it was, and
  returns it: no KeyError is raised.
\<close>

theorem missing_column_noop:
  assumes "(r, col) \<in> set enrollment_rules \<union> set usage_rules"
    and "col \<notin> set (columns df)"
  shows "apply_rule parse (r, col) df = Inr df"
  using assms(2) by (rule apply_rule_absent)

theorem missing_column_noop_witness:
  "(QuoteWrap, ''CUSTOMER_NAME'') \<in> set enrollment_rules \<union> set usage_rules \<and>
   ''CUSTOMER_NAME'' \<notin> set (columns [(''CITY_GATE'', [IntNum 7, Null])]) \<and>
   apply_rule sample_parse (QuoteWrap, ''CUSTOMER_NAME'') [(''CITY_GATE'', [IntNum 7, Null])] =
     Inr [(''CITY_GATE'', [IntNum 7, Null])]"
proof -
  have a: "(QuoteWrap, ''CUSTOMER_NAME'') \<in> set enrollment_rules \<union> set usage_rules"
    by (simp add: enrollment_rules_def)
  have b: "''CUSTOMER_NAME'' \<notin> set (columns [(''CITY_GATE'', [IntNum 7, Null])])"
    by (simp add: columns_def)
  show ?thesis
    using a b missing_column_noop [OF a b, of sample_parse] by simp
qed



section \<open>The shape of the frame\<close>

text \<open>
  Claim C10. On a frame whose column names are distinct, as \<^verbatim>\<open>read_excel\<close> returns them,
  each of the two rule sets succeeds and returns a frame with the same column names in the
  same order and with as many cells in every column as before: no row and no column is
  added, dropped or renamed.
\<close>

theorem rule_sets_preserve_shape:
  assumes "distinct (columns df)"
  shows "(\<exists>df'. apply_enrollment_transforms parse df = Inr df' \<and> columns df' = columns df \<and>
            row_counts df' = row_counts df) \<and>
         (\<exists>df'. apply_usage_transforms parse df = Inr df' \<and> columns df' = columns df \<and>
            row_counts df' = row_counts df)"
  using for_each_shape [OF assms]
  by (simp add: apply_enrollment_transforms_rules apply_usage_transforms_rules)

theorem rule_sets_preserve_shape_witness:
  "distinct (columns [(''CUSTOMER_NAME'', [Text ''Jane Doe'', Null]), (''CITY_GATE'', [IntNum 7, Null])]) \<and>
   (\<exists>df'. apply_enrollment_transforms sample_parse
        [(''CUSTOMER_NAME'', [Text ''Jane Doe'', Null]), (''CITY_GATE'', [IntNum 7, Null])] = Inr df' \<and>
      columns df' = [''CUSTOMER_NAME'', ''CITY_GATE''] \<and> row_counts df' = [2, 2]) \<and>
   (\<exists>df'. apply_usage_transforms sample_parse
        [(''CUSTOMER_NAME'', [Text ''Jane Doe'', Null]), (''CITY_GATE'', [IntNum 7, Null])] = Inr df' \<and>
      columns df' = [''CUSTOMER_NAME'', ''CITY_GATE''] \<and> row_counts df' = [2, 2])"
proof -
  have a: "distinct (columns [(''CUSTOMER_NAME'', [Text ''Jane Doe'', Null]),
      (''CITY_GATE'', [IntNum 7, Null])])"
    by (simp add: columns_def)
  show ?thesis
    using a rule_sets_preserve_shape [OF a, of sample_parse]
    by (simp add: columns_def row_counts_def numeral_2_eq_2)
qed

section \<open>The cleanup pass replaces runs of three double quotes\<close>

lemma replace_quotes_none:
  "\<not> contains content [dquote, dquote, dquote] \<Longrightarrow>
   str_replace_ne [dquote, dquote, dquote] [dquote] content = content"
  by (induction content) auto

lemma starts_with_window:
  "starts_with (x # xs @ dquote # dquote # dquote # ys) [dquote, dquote, dquote] =
   starts_with (x # xs @ [dquote, dquote]) [dquote, dquote, dquote]"
  by (cases xs; cases "tl xs") auto

lemma replace_quotes_first:
  "\<not> contains (xs @ [dquote, dquote]) [dquote, dquote, dquote] \<Longrightarrow>
   str_replace_ne [dquote, dquote, dquote] [dquote] (xs @ dquote # dquote # dquote # ys) =
   xs @ dquote # str_replace_ne [dquote, dquote, dquote] [dquote] ys"
proof (induction xs)
  case Nil
  then show ?case by simp
next
  case (Cons x xs)
  from Cons.prems have a: "\<not> starts_with (x # xs @ [dquote, dquote]) [dquote, dquote, dquote]"
    and b: "\<not> contains (xs @ [dquote, dquote]) [dquote, dquote, dquote]"
    by simp_all
  have "\<not> starts_with (x # xs @ dquote # dquote # dquote # ys) [dquote, dquote, dquote]"
    using a starts_with_window [of x xs ys] by blast
  then have "str_replace_ne [dquote, dquote, dquote] [dquote]
       (x # xs @ dquote # dquote # dquote # ys) =
     x # str_replace_ne [dquote, dquote, dquote] [dquote] (xs @ dquote # dquote # dquote # ys)"
    by (simp del: starts_with.simps)
  then show ?case using Cons.IH [OF b] by simp
qed

text \<open>
  Claim C5. The cleanup pass is a substitution on the text alone: a text without three
  double quotes in a row is returned as it is; in a text whose first run of three double
  quotes begins behind \<open>xs\<close>, the run becomes one double quote and the pass goes on behind
  the run. So \<^verbatim>\<open>He said """Hi"""\<close> gives \<^verbatim>\<open>He said "Hi"\<close> and six double quotes give two.
\<close>

theorem cleanup_pass:
  "(\<not> contains content [dquote, dquote, dquote] \<longrightarrow>
      find_and_replace_quotes (Some content) = Some content) \<and>
   (\<not> contains (xs @ [dquote, dquote]) [dquote, dquote, dquote] \<longrightarrow>
      find_and_replace_quotes (Some (xs @ [dquote, dquote, dquote] @ ys)) =
      map_option (\<lambda>rest. xs @ dquote # rest) (find_and_replace_quotes (Some ys))) \<and>
   find_and_replace_quotes
     (Some (''He said '' @ [dquote, dquote, dquote] @ ''Hi'' @ [dquote, dquote, dquote])) =
     Some (''He said '' @ [dquote] @ ''Hi'' @ [dquote]) \<and>
   find_and_replace_quotes (Some (replicate 6 dquote)) = Some [dquote, dquote]"
proof (intro conjI impI)
  show "find_and_replace_quotes
     (Some (''He said '' @ [dquote, dquote, dquote] @ ''Hi'' @ [dquote, dquote, dquote])) =
     Some (''He said '' @ [dquote] @ ''Hi'' @ [dquote])"
    by code_simp
  show "find_and_replace_quotes (Some (replicate 6 dquote)) = Some [dquote, dquote]"
    by code_simp
next
  assume "\<not> contains content [dquote, dquote, dquote]"
  then show "find_and_replace_quotes (Some content) = Some content"
    by (simp add: find_and_replace_quotes_def str_replace_def replace_quotes_none)
next
  assume "\<not> contains (xs @ [dquote, dquote]) [dquote, dquote, dquote]"
  then show "find_and_replace_quotes (Some (xs @ [dquote, dquote, dquote] @ ys)) =
      map_option (\<lambda>rest. xs @ dquote # rest) (find_and_replace_quotes (Some ys))"
    by (simp add: find_and_replace_quotes_def str_replace_def replace_quotes_first
        del: contains.simps)
qed

theorem cleanup_pass_witness:
  "\<not> contains ''a,b'' [dquote, dquote, dquote] \<and>
   find_and_replace_quotes (Some ''a,b'') = Some ''a,b'' \<and>
   \<not> contains (''a,'' @ [dquote, dquote]) [dquote, dquote, dquote] \<and>
   find_and_replace_quotes (Some (''a,'' @ [dquote, dquote, dquote] @ ''b'')) =
     Some (''a,'' @ dquote # ''b'')"
proof -
  have a: "\<not> contains ''a,b'' [dquote, dquote, dquote]"
    by code_simp
  have b: "\<not> contains (''a,'' @ [dquote, dquote]) [dquote, dquote, dquote]"
    by code_simp
  have c: "find_and_replace_quotes (Some ''b'') = Some ''b''"
    by code_simp
  show ?thesis
    using a b c cleanup_pass [of "''a,b''" "''a,''" "''b''"] by simp
qed

section \<open>Formatting a date\<close>











section \<open>The column after a transform\<close>

lemma getitem_Inr: "getitem df col = Inr s \<longleftrightarrow> map_of df col = Some s"
  by (simp add: getitem_def split: option.splits)

lemma masked_transform_column:
  assumes "getitem df col = Inr s"
  shows "\<exists>df'. masked_transform f col df = Inr df' \<and>
           getitem df' col = Inr (map (\<lambda>c. if notna c then Text (f (astype_str c)) else c) s)"
proof -
  have m: "map_of df col = Some s" using assms by (simp add: getitem_Inr)
  then have "col \<in> set (columns df)" by (simp add: in_columns_iff)
  then show ?thesis
    by (simp add: masked_transform_present [OF m] getitem_Inr map_of_setitem_same)
qed



section \<open>Dates\<close>



section \<open>Zero padding\<close>

lemma zfill_cases:
  "(\<not> has_sign t \<longrightarrow> zfill width t = replicate (width - length t) CHR ''0'' @ t) \<and>
   (width \<le> length t \<longrightarrow> zfill width t = t) \<and>
   length (zfill width t) = max width (length t)"
  by (cases t) (auto simp: zfill_def has_sign_def)

lemma zfill_signed:
  "length (c # cs) < width \<Longrightarrow> c = CHR ''+'' \<or> c = CHR ''-'' \<Longrightarrow>
   zfill width (c # cs) = c # replicate (width - length (c # cs)) CHR ''0'' @ cs"
  by (auto simp: zfill_def)

text \<open>
  Claim C3, as it is stated, at the number \<open>-7\<close> in a column padded to four characters:
  the text before the first dot is \<^verbatim>\<open>-7\<close>, and the program gives \<^verbatim>\<open>-007\<close>, which is not
  that text with zeros put in front of it.
\<close>

theorem zero_pad_counterexample:
  "zero_pad_column ''CITY_GATE'' 4 [(''CITY_GATE'', [IntNum (- 7)])] =
     Inr [(''CITY_GATE'', [Text ''-007''])] \<and>
   split_dot_first (astype_str (IntNum (- 7))) = ''-7'' \<and>
   ''-007'' \<noteq> replicate (4 - length ''-7'') CHR ''0'' @ ''-7''"
  by code_simp

text \<open>
  Claim C3, amended. Every non-null cell of a padded column becomes a text made from the
  cell's text before its first dot. When that text has no leading sign, it is that text
  with zeros in front of it, up to \<open>width\<close> characters; when it has a leading sign and is
  shorter than \<open>width\<close>, the zeros go between the sign and the rest. A text of \<open>width\<close>
  characters or more is kept; the result has \<open>width\<close> characters or the length of the
  text, whichever is more. With \<open>width = 4\<close>, \<^verbatim>\<open>7\<close> gives \<^verbatim>\<open>0007\<close>, \<^verbatim>\<open>12.0\<close> gives
  \<^verbatim>\<open>0012\<close> and \<^verbatim>\<open>12345\<close> is kept.
\<close>

theorem zero_pad_cells:
  assumes "getitem df col = Inr s" and "i < length s" and "s ! i \<noteq> Null"
  shows "\<exists>df' s' padded. zero_pad_column col width df = Inr df' \<and> getitem df' col = Inr s' \<and>
           s' ! i = Text padded \<and>
           (\<not> has_sign (split_dot_first (astype_str (s ! i))) \<longrightarrow>
              padded = replicate (width - length (split_dot_first (astype_str (s ! i)))) CHR ''0'' @
                       split_dot_first (astype_str (s ! i))) \<and>
           (\<forall>c cs. split_dot_first (astype_str (s ! i)) = c # cs \<and> has_sign (c # cs) \<and>
                   length (c # cs) < width \<longrightarrow>
              padded = c # replicate (width - length (c # cs)) CHR ''0'' @ cs) \<and>
           (width \<le> length (split_dot_first (astype_str (s ! i))) \<longrightarrow>
              padded = split_dot_first (astype_str (s ! i))) \<and>
           length padded = max width (length (split_dot_first (astype_str (s ! i)))) \<and>
           split_dot_first (astype_str (s ! i)) = takeWhile (\<lambda>c. c \<noteq> CHR ''.'') (astype_str (s ! i)) \<and>
           zero_pad_column ''CITY_GATE'' 4
             [(''CITY_GATE'', [Text ''7'', Text ''12.0'', Text ''12345''])] =
             Inr [(''CITY_GATE'', [Text ''0007'', Text ''0012'', Text ''12345''])]"
proof -
  let ?t = "split_dot_first (astype_str (s ! i))"
  obtain df' where df': "zero_pad_column col width df = Inr df'"
      "getitem df' col =
         Inr (map (\<lambda>c. if notna c then Text (zfill width (split_dot_first (astype_str c))) else c) s)"
    using masked_transform_column [OF assms(1), of "\<lambda>x. zfill width (split_dot_first x)"]
    by (auto simp: zero_pad_column_def)
  let ?s' = "map (\<lambda>c. if notna c then Text (zfill width (split_dot_first (astype_str c))) else c) s"
  have cell: "?s' ! i = Text (zfill width ?t)"
    using assms(2,3) by (simp add: notna_def)
  have signed: "\<forall>c cs. ?t = c # cs \<and> has_sign (c # cs) \<and> length (c # cs) < width \<longrightarrow>
      zfill width ?t = c # replicate (width - length (c # cs)) CHR ''0'' @ cs"
    using zfill_signed by (auto simp: has_sign_def)
  have ex: "zero_pad_column ''CITY_GATE'' 4
             [(''CITY_GATE'', [Text ''7'', Text ''12.0'', Text ''12345''])] =
             Inr [(''CITY_GATE'', [Text ''0007'', Text ''0012'', Text ''12345''])]"
    by code_simp
  have sp: "?t = takeWhile (\<lambda>c. c \<noteq> CHR ''.'') (astype_str (s ! i))"
    by (simp add: split_dot_first_def)
  show ?thesis
    using df' cell signed ex sp zfill_cases [of ?t width] by blast
qed

theorem zero_pad_cells_witness:
  "getitem [(''CITY_GATE'', [Other ''12.0'', IntNum (- 7), Text ''12345''])] ''CITY_GATE'' =
     Inr [Other ''12.0'', IntNum (- 7), Text ''12345''] \<and>
   \<not> has_sign (split_dot_first (astype_str (Other ''12.0''))) \<and>
   split_dot_first (astype_str (IntNum (- 7))) = CHR ''-'' # ''7'' \<and> has_sign (CHR ''-'' # ''7'') \<and>
   length (CHR ''-'' # ''7'') < 4 \<and>
   4 \<le> length (split_dot_first (astype_str (Text ''12345''))) \<and>
   (\<exists>df' s'. zero_pad_column ''CITY_GATE'' 4
        [(''CITY_GATE'', [Other ''12.0'', IntNum (- 7), Text ''12345''])] = Inr df' \<and>
      getitem df' ''CITY_GATE'' = Inr s' \<and>
      s' ! 0 = Text ''0012'' \<and> s' ! 1 = Text ''-007'' \<and> s' ! 2 = Text ''12345'')"
proof -
  let ?s = "[Other ''12.0'', IntNum (- 7), Text ''12345'']"
  let ?df = "[(''CITY_GATE'', ?s)]"
  have g: "getitem ?df ''CITY_GATE'' = Inr ?s"
    by (simp add: getitem_def)
  have t0: "split_dot_first (astype_str (Other ''12.0'')) = ''12''"
    by code_simp
  have t1: "split_dot_first (astype_str (IntNum (- 7))) = CHR ''-'' # ''7''"
    by code_simp
  have t2: "split_dot_first (astype_str (Text ''12345'')) = ''12345''"
    by code_simp
  have h0: "\<not> has_sign ''12''" by (simp add: has_sign_def)
  have h1: "has_sign (CHR ''-'' # ''7'')" by (simp add: has_sign_def)
  have z0: "replicate (4 - length ''12'') CHR ''0'' @ ''12'' = ''0012''"
    by code_simp
  have z1: "CHR ''-'' # replicate (4 - length (CHR ''-'' # ''7'')) CHR ''0'' @ ''7'' = ''-007''"
    by code_simp
  obtain df0 s0 where r0: "zero_pad_column ''CITY_GATE'' 4 ?df = Inr df0"
      "getitem df0 ''CITY_GATE'' = Inr s0" "s0 ! 0 = Text ''0012''"
    using zero_pad_cells [OF g, of 0 4] t0 h0 z0 by auto
  obtain df1 s1 where r1: "zero_pad_column ''CITY_GATE'' 4 ?df = Inr df1"
      "getitem df1 ''CITY_GATE'' = Inr s1" "s1 ! 1 = Text ''-007''"
    using zero_pad_cells [OF g, of 1 4] t1 h1 z1 by auto
  obtain df2 s2 where r2: "zero_pad_column ''CITY_GATE'' 4 ?df = Inr df2"
      "getitem df2 ''CITY_GATE'' = Inr s2" "s2 ! 2 = Text ''12345''"
    using zero_pad_cells [OF g, of 2 4] t2 by auto
  have "df1 = df0" "df2 = df0" using r0(1) r1(1) r2(1) by simp_all
  then have "s1 = s0" "s2 = s0" using r0(2) r1(2) r2(2) by simp_all
  then show ?thesis
    using g t0 t1 t2 h0 h1 r0 r1 r2 by auto
qed

section \<open>Wrapping in quotes\<close>

text \<open>
  Claim C6. The quote rule adds one double quote on each side of the text of every non-null
  cell and looks at nothing else: run a second time it adds one more on each side, so the
  cell then differs from the cell after one run. The text \<^verbatim>\<open>a\<close> has two double quotes on
  each side after two runs.
\<close>

theorem quote_wrap_twice:
  assumes "getitem df col = Inr s" and "i < length s" and "s ! i \<noteq> Null"
  shows "\<exists>df1 s1 df2 s2.
           quote_column col df = Inr df1 \<and> getitem df1 col = Inr s1 \<and>
           s1 ! i = Text ([dquote] @ astype_str (s ! i) @ [dquote]) \<and>
           quote_column col df1 = Inr df2 \<and> getitem df2 col = Inr s2 \<and>
           s2 ! i = Text ([dquote, dquote] @ astype_str (s ! i) @ [dquote, dquote]) \<and>
           s2 ! i \<noteq> s1 ! i"
proof -
  let ?w = "\<lambda>c. if notna c then Text (quote_wrap (astype_str c)) else c"
  obtain df1 where df1: "quote_column col df = Inr df1" "getitem df1 col = Inr (map ?w s)"
    using masked_transform_column [OF assms(1), of quote_wrap]
    by (auto simp: quote_column_def)
  obtain df2 where df2: "quote_column col df1 = Inr df2"
      "getitem df2 col = Inr (map ?w (map ?w s))"
    using masked_transform_column [OF df1(2), of quote_wrap]
    by (auto simp: quote_column_def)
  have c1: "map ?w s ! i = Text ([dquote] @ astype_str (s ! i) @ [dquote])"
    using assms(2,3) by (simp add: notna_def quote_wrap_def)
  have c2: "map ?w (map ?w s) ! i = Text ([dquote, dquote] @ astype_str (s ! i) @ [dquote, dquote])"
    using assms(2,3) by (simp add: notna_def quote_wrap_def)
  have "length ([dquote, dquote] @ astype_str (s ! i) @ [dquote, dquote]) \<noteq>
        length ([dquote] @ astype_str (s ! i) @ [dquote])"
    by simp
  then have "[dquote, dquote] @ astype_str (s ! i) @ [dquote, dquote] \<noteq>
        [dquote] @ astype_str (s ! i) @ [dquote]"
    by metis
  then have ne: "map ?w (map ?w s) ! i \<noteq> map ?w s ! i"
    unfolding c1 c2 by blast
  show ?thesis
    using df1 df2 c1 c2 ne by blast
qed

theorem quote_wrap_twice_witness:
  "getitem [(''CUSTOMER_NAME'', [Text ''a''])] ''CUSTOMER_NAME'' = Inr [Text ''a''] \<and>
   0 < length [Text ''a''] \<and> [Text ''a''] ! 0 \<noteq> Null \<and>
   (\<exists>df1 s1 df2 s2.
      quote_column ''CUSTOMER_NAME'' [(''CUSTOMER_NAME'', [Text ''a''])] = Inr df1 \<and>
      getitem df1 ''CUSTOMER_NAME'' = Inr s1 \<and> s1 ! 0 = Text ([dquote] @ ''a'' @ [dquote]) \<and>
      quote_column ''CUSTOMER_NAME'' df1 = Inr df2 \<and> getitem df2 ''CUSTOMER_NAME'' = Inr s2 \<and>
      s2 ! 0 = Text ([dquote, dquote] @ ''a'' @ [dquote, dquote]) \<and> s2 ! 0 \<noteq> s1 ! 0)"
proof -
  have g: "getitem [(''CUSTOMER_NAME'', [Text ''a''])] ''CUSTOMER_NAME'' = Inr [Text ''a'']"
    by (simp add: getitem_def)
  show ?thesis
    using g quote_wrap_twice [OF g, of 0] by simp
qed

text \<open>
  Claim C7, as it is stated, at the text \<^verbatim>\<open>Acme Co\<close>: the result of the custom wrap does
  not have ten characters.
\<close>

theorem custom_wrap_counterexample:
  "custom_quote_column ''TX_SERV_SUPP'' [(''TX_SERV_SUPP'', [Text ''Acme Co''])] =
     Inr [(''TX_SERV_SUPP'', [Text ([dquote, squote] @ ''Acme Co'' @ [squote, dquote])])] \<and>
   length ([dquote, squote] @ ''Acme Co'' @ [squote, dquote]) \<noteq> 10"
  by code_simp

text \<open>
  Claim C7, amended. The custom wrap replaces the text \<open>v\<close> of every non-null cell by the
  five parts double quote, single quote, \<open>v\<close>, single quote, double quote, four characters
  more than \<open>v\<close>; for \<^verbatim>\<open>Acme Co\<close> the result has eleven characters.
\<close>

theorem custom_wrap_cells:
  assumes "getitem df col = Inr s" and "i < length s" and "s ! i \<noteq> Null"
  shows "\<exists>df' s' wrapped.
           custom_quote_column col df = Inr df' \<and> getitem df' col = Inr s' \<and>
           s' ! i = Text wrapped \<and>
           wrapped = [dquote] @ [squote] @ astype_str (s ! i) @ [squote] @ [dquote] \<and>
           length wrapped = length (astype_str (s ! i)) + 4 \<and>
           custom_quote_column ''TX_SERV_SUPP'' [(''TX_SERV_SUPP'', [Text ''Acme Co''])] =
             Inr [(''TX_SERV_SUPP'', [Text ([dquote, squote] @ ''Acme Co'' @ [squote, dquote])])] \<and>
           length ([dquote, squote] @ ''Acme Co'' @ [squote, dquote]) = 11"
proof -
  let ?w = "\<lambda>c. if notna c then Text (custom_wrap (astype_str c)) else c"
  obtain df' where df': "custom_quote_column col df = Inr df'" "getitem df' col = Inr (map ?w s)"
    using masked_transform_column [OF assms(1), of custom_wrap]
    by (auto simp: custom_quote_column_def)
  have c: "map ?w s ! i = Text ([dquote] @ [squote] @ astype_str (s ! i) @ [squote] @ [dquote])"
    using assms(2,3) by (simp add: notna_def custom_wrap_def)
  have l: "length ([dquote] @ [squote] @ astype_str (s ! i) @ [squote] @ [dquote]) =
      length (astype_str (s ! i)) + 4"
    by simp
  have ex: "custom_quote_column ''TX_SERV_SUPP'' [(''TX_SERV_SUPP'', [Text ''Acme Co''])] =
             Inr [(''TX_SERV_SUPP'', [Text ([dquote, squote] @ ''Acme Co'' @ [squote, dquote])])]"
    by code_simp
  have n: "length ([dquote, squote] @ ''Acme Co'' @ [squote, dquote]) = 11"
    by simp
  show ?thesis
    using df' c l ex n by blast
qed

theorem custom_wrap_cells_witness:
  "getitem [(''TX_SERV_SUPP'', [Text ''Acme Co'', Null])] ''TX_SERV_SUPP'' =
     Inr [Text ''Acme Co'', Null] \<and>
   0 < length [Text ''Acme Co'', Null] \<and> [Text ''Acme Co'', Null] ! 0 \<noteq> Null \<and>
   (\<exists>df' s'. custom_quote_column ''TX_SERV_SUPP'' [(''TX_SERV_SUPP'', [Text ''Acme Co'', Null])] =
        Inr df' \<and> getitem df' ''TX_SERV_SUPP'' = Inr s' \<and>
      s' ! 0 = Text ([dquote, squote] @ ''Acme Co'' @ [squote, dquote]))"
proof -
  have g: "getitem [(''TX_SERV_SUPP'', [Text ''Acme Co'', Null])] ''TX_SERV_SUPP'' =
     Inr [Text ''Acme Co'', Null]"
    by (simp add: getitem_def)
  show ?thesis
    using g custom_wrap_cells [OF g, of 0] by auto
qed

section \<open>The Enrollment rule set on one row\<close>

text \<open>
  Claim C8. With a parser that reads the text 2023-01-15 as the fifteenth of January 2023,
  the Enrollment rule set turns the one-row frame with CUSTOMER_NAME the text Jane Doe,
  DT_EFF the text 2023-01-15 and CITY_GATE the number 7 into the row with CUSTOMER_NAME the
  text Jane Doe between double quotes, DT_EFF the text 2023-01-15 and CITY_GATE the text
  0007.
\<close>

theorem enrollment_end_to_end:
  assumes "parse [Text ''2023-01-15''] (Text ''2023-01-15'') =
             Some \<lparr>year = 2023, month = 1, day = 15\<rparr>"
  shows "apply_enrollment_transforms parse
           [(''CUSTOMER_NAME'', [Text ''Jane Doe'']), (''DT_EFF'', [Text ''2023-01-15'']),
            (''CITY_GATE'', [IntNum 7])] =
         Inr [(''CUSTOMER_NAME'', [Text ([dquote] @ ''Jane Doe'' @ [dquote])]),
              (''DT_EFF'', [Text ''2023-01-15'']), (''CITY_GATE'', [Text ''0007''])]"
proof -
  let ?df0 = "[(''CUSTOMER_NAME'', [Text ''Jane Doe'']), (''DT_EFF'', [Text ''2023-01-15'']),
            (''CITY_GATE'', [IntNum 7])]"
  let ?df1 = "[(''CUSTOMER_NAME'', [Text ([dquote] @ ''Jane Doe'' @ [dquote])]),
            (''DT_EFF'', [Text ''2023-01-15'']), (''CITY_GATE'', [IntNum 7])]"
  let ?df2 = "[(''CUSTOMER_NAME'', [Text ([dquote] @ ''Jane Doe'' @ [dquote])]),
            (''DT_EFF'', [Text ''2023-01-15'']), (''CITY_GATE'', [Text ''0007''])]"
  have fmt: "strftime \<lparr>year = 2023, month = 1, day = 15\<rparr> = ''2023-01-15''"
    by code_simp
  have q: "for_each quote_column
        [''CUSTOMER_NAME'', ''CUSTOMER_SERVICE_ADDRESS'', ''CUSTOMER_SERVICE_CITY_STATE_ZIP'',
         ''TX_TAR_SHORT_DESC'', ''TX_TAR_SCH_DESC''] ?df0 = Inr ?df1"
    by code_simp
  have c: "custom_quote_column ''TX_SERV_SUPP'' ?df1 = Inr ?df1"
    by code_simp
  have d1: "date_column parse ''DT_EFF'' ?df1 = Inr ?df1"
    using assms fmt
    by (simp add: date_column_def columns_def getitem_def bind_result_def setitem_def
        to_datetime_def dt_strftime_def)
  have d2: "date_column parse ''CUST_ENR_START_DATE'' ?df1 = Inr ?df1"
    by (rule date_column_absent) (simp add: columns_def)
  have d3: "date_column parse ''CUST_EDI_DROP_DATE'' ?df1 = Inr ?df1"
    by (rule date_column_absent) (simp add: columns_def)
  have d4: "date_column parse ''LAST_UPDATE'' ?df1 = Inr ?df1"
    by (rule date_column_absent) (simp add: columns_def)
  have d: "for_each (date_column parse)
        [''DT_EFF'', ''CUST_ENR_START_DATE'', ''CUST_EDI_DROP_DATE'', ''LAST_UPDATE''] ?df1 =
        Inr ?df1"
    by (simp only: for_each.simps bind_result_def d1 d2 d3 d4 sum.case)
  have z: "for_each (\<lambda>(col, len). zero_pad_column col len)
        [(''CITY_GATE'', 4), (''KY_MTR_BILL_GRP'', 2), (''CD_SERV_SUPP'', 4)] ?df1 = Inr ?df2"
    by code_simp
  have r: "for_each remove_comma_column
        [''TOT_ANNUAL_USAGE'', ''CUST_PEAK_DAY'', ''CUST_BASE_LOAD'', ''CUST_THERMAL_RESPONSE'']
        ?df2 = Inr ?df2"
    by code_simp
  show ?thesis
    unfolding apply_enrollment_transforms_def
    by (simp only: q c d z r bind_result_def sum.case)
qed

theorem enrollment_end_to_end_witness:
  "sample_parse [Text ''2023-01-15''] (Text ''2023-01-15'') =
     Some \<lparr>year = 2023, month = 1, day = 15\<rparr> \<and>
   apply_enrollment_transforms sample_parse
     [(''CUSTOMER_NAME'', [Text ''Jane Doe'']), (''DT_EFF'', [Text ''2023-01-15'']),
      (''CITY_GATE'', [IntNum 7])] =
   Inr [(''CUSTOMER_NAME'', [Text ([dquote] @ ''Jane Doe'' @ [dquote])]),
        (''DT_EFF'', [Text ''2023-01-15'']), (''CITY_GATE'', [Text ''0007''])]"
proof -
  have p: "sample_parse [Text ''2023-01-15''] (Text ''2023-01-15'') =
     Some \<lparr>year = 2023, month = 1, day = 15\<rparr>"
    by (simp add: sample_parse_def)
  show ?thesis
    using p enrollment_end_to_end [of sample_parse] by blast
qed

section \<open>Dispatch\<close>



end
